theory Spec2Isabelle
  imports
    Main
    "HOL-Library.Char_ord"
    "HOL-Library.List_Lexorder"
    "HOL-Library.Product_Lexorder"
    "HOL-Library.Multiset"
begin

section \<open>Data model\<close>

text \<open>
  Python \<open>str\<close> values are modelled as \<open>string\<close>, one \<open>char\<close> per code point; the model
  covers the code points below 256 (for the \<open>X-Signature\<close> header this is exact: the
  framework decodes header bytes as Latin-1). The order on strings is the lexicographic
  order on code points, which is how SQLite compares \<open>TEXT\<close> values under its default
  \<open>BINARY\<close> collation.

  \<open>WebhookMessage\<close> of \<open>models.py\<close> is the validated inbound payload. \<open>Message\<close>, the
  record read back from the database, has the same fields and \<open>created_at\<close>; it is also
  the shape of a row of table \<open>messages\<close> of \<open>storage.py\<close>. The field \<open>text\<close>, the only
  nullable one, is called \<open>msg_text\<close> here.
\<close>

record WebhookMessage =
  message_id :: string
  from_msisdn :: string
  to_msisdn :: string
  ts :: string
  msg_text :: "string option"

record Message = WebhookMessage +
  created_at :: string

text \<open>
  The table is the list of its rows in insertion order. \<open>message_id TEXT PRIMARY KEY\<close>
  is the invariant \<open>pk_unique\<close>.
\<close>

type_synonym table = "Message list"

definition pk_unique :: "table \<Rightarrow> bool" where
  "pk_unique db = distinct (map message_id db)"

text \<open>The exceptions that the modelled code can raise or let through.\<close>

datatype exn =
    HTTPException nat string
  | RequestValidationError
  | ValueError
  | TypeError
  | AttributeError
  | OverflowError
  | IntegrityError
  | OperationalError

section \<open>Strings\<close>

text \<open>
  \<open>str.encode()\<close>: UTF-8, for the code points below 256. It is also how SQLite stores a
  \<open>TEXT\<close> value, so its length is the value's length in bytes.
\<close>

definition encode :: "string \<Rightarrow> string" where
  "encode s =
     concat (map (\<lambda>c. if of_char c < (128::nat) then [c]
                       else [char_of (192 + of_char c div (64::nat)),
                             char_of (128 + of_char c mod (64::nat))]) s)"

section \<open>SQL building blocks\<close>

text \<open>Python truthiness of an \<open>Optional[str]\<close>: \<open>None\<close> and \<open>""\<close> are falsy.\<close>

definition truthy :: "string option \<Rightarrow> bool" where
  "truthy v = (case v of None \<Rightarrow> False | Some s \<Rightarrow> s \<noteq> [])"

text \<open>
  SQLite's \<open>LIKE\<close> folds the ASCII letters only, so \<open>'a' LIKE 'A'\<close> holds; \<open>%\<close> matches
  any run of characters and \<open>_\<close> exactly one. No \<open>ESCAPE\<close> is given by the source.
  \<open>like_match\<close> is the comparison of a pattern with a text once both are cut at their
  first NUL character, which \<open>sql_like\<close> below does.
\<close>

definition ascii_upper :: "char \<Rightarrow> char" where
  "ascii_upper c =
     (if CHR ''a'' \<le> c \<and> c \<le> CHR ''z'' then char_of (of_char c - (32::nat)) else c)"

fun like_match :: "string \<Rightarrow> string \<Rightarrow> bool" where
  "like_match [] s = (s = [])"
| "like_match (p # ps) [] = (p = CHR ''%'' \<and> like_match ps [])"
| "like_match (p # ps) (c # cs) =
     (if p = CHR ''%'' then like_match ps (c # cs) \<or> like_match (p # ps) cs
      else if p = CHR ''_'' then like_match ps cs
      else ascii_upper p = ascii_upper c \<and> like_match ps cs)"

text \<open>
  The matcher reads pattern and text as C strings: each ends at its first NUL character.
\<close>

definition c_str :: "string \<Rightarrow> string" where
  "c_str s = takeWhile (\<lambda>c. c \<noteq> CHR 0x00) s"

text \<open>
  \<open>text LIKE ?\<close> evaluated on a row. A pattern of more than 50000 bytes makes the engine
  raise \<open>OperationalError\<close> (LIKE or GLOB pattern too complex), whatever the text, null
  included. Otherwise a \<open>NULL\<close> text makes the comparison \<open>NULL\<close>, which is not true.
\<close>

definition sql_like :: "string option \<Rightarrow> string \<Rightarrow> exn + bool" where
  "sql_like v pat =
     (if 50000 < length (encode pat) then Inl OperationalError
      else Inr (case v of None \<Rightarrow> False | Some s \<Rightarrow> like_match (c_str pat) (c_str s)))"

text \<open>
  Binding a Python \<open>int\<close> to a statement converts it to a 64-bit SQLite \<open>INTEGER\<close>;
  outside that range \<open>cursor.execute\<close> raises \<open>OverflowError\<close>.
\<close>

definition sqlite_int :: "int \<Rightarrow> bool" where
  "sqlite_int n = (- (2 ^ 63) \<le> n \<and> n < 2 ^ 63)"

text \<open>
  \<open>LIMIT ? OFFSET ?\<close>: a negative limit means no limit, a negative offset means 0.
\<close>

definition sql_limit :: "int \<Rightarrow> int \<Rightarrow> 'a list \<Rightarrow> 'a list" where
  "sql_limit limit offset xs =
     (let ys = drop (nat offset) xs in if limit < 0 then ys else take (nat limit) ys)"

text \<open>\<open>ORDER BY ts ASC, message_id ASC\<close>.\<close>

definition order_key :: "Message \<Rightarrow> string \<times> string" where
  "order_key r = (ts r, message_id r)"

text \<open>\<open>MIN\<close> and \<open>MAX\<close> over a column: \<open>NULL\<close> when there is no row.\<close>

definition sql_min :: "string list \<Rightarrow> string option" where
  "sql_min xs = (case xs of [] \<Rightarrow> None | y # ys \<Rightarrow> Some (fold min ys y))"

definition sql_max :: "string list \<Rightarrow> string option" where
  "sql_max xs = (case xs of [] \<Rightarrow> None | y # ys \<Rightarrow> Some (fold max ys y))"

section \<open>storage.py: insert_message\<close>

text \<open>
  What a call depends on besides its arguments and the table: the clock, and whether the
  database file can be opened, the statement run and the transaction committed. A failing
  \<open>sqlite3.connect\<close>, \<open>execute\<close> or \<open>commit\<close> raises \<open>OperationalError\<close>.
\<close>

record Env =
  utcnow :: string
  connect_fails :: bool
  execute_fails :: bool
  commit_fails :: bool

text \<open>
  \<open>cursor.execute("INSERT ...")\<close> followed by \<open>conn.commit()\<close>: the primary key makes the
  statement raise \<open>IntegrityError\<close> on a \<open>message_id\<close> that is present; a transaction that
  is not committed is rolled back when the connection is closed.
\<close>

definition execute_insert :: "Env \<Rightarrow> table \<Rightarrow> Message \<Rightarrow> exn + table" where
  "execute_insert env db r =
     (if execute_fails env then Inl OperationalError
      else if message_id r \<in> set (map message_id db) then Inl IntegrityError
      else if commit_fails env then Inl OperationalError
      else Inr (db @ [r]))"

text \<open>
  \<open>get_db_connection()\<close> is called before the \<open>try\<close>, so its exception leaves the
  function; inside the \<open>try\<close>, \<open>IntegrityError\<close> gives \<open>(True, True)\<close> and every other
  exception \<open>(False, False)\<close>.
\<close>

definition insert_message ::
  "Env \<Rightarrow> table \<Rightarrow> string \<Rightarrow> string \<Rightarrow> string \<Rightarrow> string \<Rightarrow> string option
     \<Rightarrow> (exn + bool \<times> bool) \<times> table" where
  "insert_message env db mid from_v to_v ts_v text_v =
     (if connect_fails env then (Inl OperationalError, db)
      else
        case execute_insert env db
               \<lparr>message_id = mid, from_msisdn = from_v, to_msisdn = to_v, ts = ts_v,
                msg_text = text_v, created_at = utcnow env @ ''Z''\<rparr> of
          Inr db' \<Rightarrow> (Inr (True, False), db')
        | Inl e \<Rightarrow>
            (if e = IntegrityError then (Inr (True, True), db)
             else (Inr (False, False), db)))"

section \<open>storage.py: get_messages\<close>

text \<open>
  The \<open>WHERE\<close> clause is built as a list of conditions, one per truthy filter, joined
  with \<open>AND\<close> (\<open>1=1\<close> when the list is empty). \<open>=\<close> and \<open>>=\<close> compare whole strings.
\<close>

definition where_clauses ::
  "string option \<Rightarrow> string option \<Rightarrow> string option \<Rightarrow> (Message \<Rightarrow> exn + bool) list" where
  "where_clauses from_filter since q =
     (if truthy from_filter then [\<lambda>r. Inr (from_msisdn r = the from_filter)] else []) @
     (if truthy since then [\<lambda>r. Inr (the since \<le> ts r)] else []) @
     (if truthy q then [\<lambda>r. sql_like (msg_text r) (''%'' @ the q @ ''%'')] else [])"

text \<open>
  The engine tests the conditions on a row in their order and leaves the row at the first
  one that is not true, so a later condition is evaluated only on the rows that pass the
  earlier ones.
\<close>

fun where_clause :: "(Message \<Rightarrow> exn + bool) list \<Rightarrow> Message \<Rightarrow> exn + bool" where
  "where_clause [] r = Inr True"
| "where_clause (c # cs) r =
     (case c r of
        Inl e \<Rightarrow> Inl e
      | Inr b \<Rightarrow> if b then where_clause cs r else Inr False)"

text \<open>The scan of the table: the rows on which the clause is true, or the error raised.\<close>

fun select_where :: "(Message \<Rightarrow> exn + bool) list \<Rightarrow> table \<Rightarrow> exn + Message list" where
  "select_where cs [] = Inr []"
| "select_where cs (r # rs) =
     (case where_clause cs r of
        Inl e \<Rightarrow> Inl e
      | Inr b \<Rightarrow>
          (case select_where cs rs of
             Inl e \<Rightarrow> Inl e
           | Inr xs \<Rightarrow> Inr (if b then r # xs else xs)))"

text \<open>
  The \<open>COUNT(*)\<close> statement runs first, then the page statement, to which \<open>limit\<close> and
  \<open>offset\<close> are bound; both scan with the same clause.
\<close>

definition get_messages ::
  "table \<Rightarrow> int \<Rightarrow> int \<Rightarrow> string option \<Rightarrow> string option \<Rightarrow> string option
     \<Rightarrow> exn + (Message list \<times> nat)" where
  "get_messages db limit offset from_filter since q =
     (case select_where (where_clauses from_filter since q) db of
        Inl e \<Rightarrow> Inl e
      | Inr matching \<Rightarrow>
          (let total_count = length matching
           in if \<not> (sqlite_int limit \<and> sqlite_int offset) then Inl OverflowError
              else Inr (sql_limit limit offset (sort_key order_key matching), total_count)))"

section \<open>storage.py: get_stats\<close>

record Stats =
  total_messages :: nat
  senders_count :: nat
  messages_per_sender :: "(string \<times> nat) list"
  first_message_ts :: "string option"
  last_message_ts :: "string option"

definition count_from :: "table \<Rightarrow> string \<Rightarrow> nat" where
  "count_from db s = length (filter (\<lambda>r. from_msisdn r = s) db)"

text \<open>
  \<open>SELECT from_msisdn, COUNT(*) ... GROUP BY from_msisdn ORDER BY count DESC LIMIT 10\<close>.
  The statement leaves the order among senders of equal count to the engine. SQLite
  sorts the rows on the grouping column to form the groups, in the direction of the
  \<open>ORDER BY\<close> term, and its \<open>ORDER BY\<close> with a \<open>LIMIT\<close> keeps rows of equal key in
  arrival order: the groups arrive by descending \<open>from_msisdn\<close> and are then sorted
  stably by descending count.
\<close>

definition group_by_sender :: "table \<Rightarrow> (string \<times> nat) list" where
  "group_by_sender db =
     map (\<lambda>s. (s, count_from db s)) (rev (sort (remdups (map from_msisdn db))))"

text \<open>The sort key of \<open>ORDER BY count DESC\<close>: ascending in the negated count.\<close>

definition by_count_desc :: "string \<times> nat \<Rightarrow> int" where
  "by_count_desc g = - int (snd g)"

definition top_senders :: "table \<Rightarrow> (string \<times> nat) list" where
  "top_senders db = take 10 (sort_key by_count_desc (group_by_sender db))"

text \<open>\<open>result[0] if result[0] else None\<close>: an empty string is falsy too.\<close>

definition or_none :: "string option \<Rightarrow> string option" where
  "or_none v = (if truthy v then v else None)"

definition get_stats :: "table \<Rightarrow> Stats" where
  "get_stats db =
     \<lparr>total_messages = length db,
      senders_count = length (remdups (map from_msisdn db)),
      messages_per_sender = top_senders db,
      first_message_ts = or_none (sql_min (map ts db)),
      last_message_ts = or_none (sql_max (map ts db))\<rparr>"

section \<open>models.py: validation of the inbound payload\<close>

text \<open>
  The JSON object of the request body as the framework hands it to the model, field by
  field (\<open>from\<close> and \<open>to\<close> are the aliases of \<open>from_msisdn\<close> and \<open>to_msisdn\<close>): a
  required field that is missing is \<open>None\<close>; \<open>text\<close> is \<open>None\<close> when missing or null.
\<close>

record RawPayload =
  j_message_id :: "string option"
  j_from :: "string option"
  j_to :: "string option"
  j_ts :: "string option"
  j_text :: "string option"

text \<open>
  \<open>str.isdigit\<close> on the code points below 256: the ASCII digits and the superscripts
  one, two and three.
\<close>

definition isdigit_char :: "char \<Rightarrow> bool" where
  "isdigit_char c =
     ((CHR ''0'' \<le> c \<and> c \<le> CHR ''9'') \<or> c = CHR 0xB2 \<or> c = CHR 0xB3 \<or> c = CHR 0xB9)"

definition isdigit :: "string \<Rightarrow> bool" where
  "isdigit s = (s \<noteq> [] \<and> list_all isdigit_char s)"

definition startswith :: "string \<Rightarrow> string \<Rightarrow> bool" where
  "startswith v p = (take (length p) v = p)"

definition endswith :: "string \<Rightarrow> string \<Rightarrow> bool" where
  "endswith v p = (length p \<le> length v \<and> drop (length v - length p) v = p)"

definition validate_msisdn :: "string \<Rightarrow> exn + string" where
  "validate_msisdn v =
     (if \<not> startswith v ''+'' then Inl ValueError
      else if \<not> isdigit (drop 1 v) then Inl ValueError
      else Inr v)"

text \<open>\<open>v.replace("Z", "+00:00")\<close> replaces every occurrence.\<close>

definition replace_Z :: "string \<Rightarrow> string" where
  "replace_Z v = concat (map (\<lambda>c. if c = CHR ''Z'' then ''+00:00'' else [c]) v)"

text \<open>
  \<open>datetime.fromisoformat\<close> is the standard library's; the model takes as a parameter
  the predicate telling which strings it parses.
\<close>

definition validate_ts :: "(string \<Rightarrow> bool) \<Rightarrow> string \<Rightarrow> exn + string" where
  "validate_ts fromisoformat v =
     (if \<not> endswith v ''Z'' then Inl ValueError
      else if \<not> fromisoformat (replace_Z v) then Inl ValueError
      else Inr v)"

text \<open>
  Building a \<open>WebhookMessage\<close>: the four required fields, \<open>min_length=1\<close> on
  \<open>message_id\<close>, the two field validators, \<open>max_length=4096\<close> on \<open>text\<close>. Any failure
  makes the framework answer 422 (\<open>RequestValidationError\<close>).
\<close>

definition field_ok :: "(string \<Rightarrow> exn + string) \<Rightarrow> string option \<Rightarrow> bool" where
  "field_ok validator v =
     (case v of
        None \<Rightarrow> False
      | Some s \<Rightarrow> (case validator s of Inl e \<Rightarrow> False | Inr s' \<Rightarrow> True))"

definition model_validate :: "(string \<Rightarrow> bool) \<Rightarrow> RawPayload \<Rightarrow> exn + WebhookMessage" where
  "model_validate fromisoformat j =
     (if field_ok (\<lambda>s. if length s < 1 then Inl ValueError else Inr s) (j_message_id j)
         \<and> field_ok validate_msisdn (j_from j)
         \<and> field_ok validate_msisdn (j_to j)
         \<and> field_ok (validate_ts fromisoformat) (j_ts j)
         \<and> (case j_text j of None \<Rightarrow> True | Some s \<Rightarrow> length s \<le> 4096)
      then Inr \<lparr>message_id = the (j_message_id j), from_msisdn = the (j_from j),
                to_msisdn = the (j_to j), ts = the (j_ts j), msg_text = j_text j\<rparr>
      else Inl RequestValidationError)"

section \<open>main.py: POST /webhook\<close>

record Config =
  WEBHOOK_SECRET :: "string option"

text \<open>
  The application state the handler touches: the table and the counter
  \<open>webhook_requests_total\<close> of \<open>metrics.py\<close> (a missing key counts as 0).
\<close>

record AppState =
  st_db :: table
  webhook_requests_total :: "string \<Rightarrow> nat"

definition increment_webhook_request :: "string \<Rightarrow> AppState \<Rightarrow> AppState" where
  "increment_webhook_request result st =
     st\<lparr>webhook_requests_total :=
          (webhook_requests_total st)(result := webhook_requests_total st result + 1)\<rparr>"

record WebhookResponse =
  status :: string

text \<open>
  \<open>hmac.compare_digest\<close> on two \<open>str\<close> values raises \<open>TypeError\<close> unless both are ASCII.
\<close>

definition is_ascii :: "string \<Rightarrow> bool" where
  "is_ascii s = list_all (\<lambda>c. of_char c < (128::nat)) s"

definition compare_digest :: "string \<Rightarrow> string \<Rightarrow> exn + bool" where
  "compare_digest a b = (if is_ascii a \<and> is_ascii b then Inr (a = b) else Inl TypeError)"

text \<open>
  The body of the handler. \<open>hmac.new(key, msg, hashlib.sha256).hexdigest()\<close> is the
  standard library's and is the parameter \<open>hexdigest\<close>, a function of key and message.
  The payload is the handler's argument, already a \<open>WebhookMessage\<close>. The calls of
  \<open>log_error\<close> write to the log only and are left out.
\<close>

definition webhook ::
  "(string \<Rightarrow> string \<Rightarrow> string) \<Rightarrow> Config \<Rightarrow> Env \<Rightarrow> AppState \<Rightarrow> WebhookMessage \<Rightarrow> string
     \<Rightarrow> string option \<Rightarrow> (exn + WebhookResponse) \<times> AppState" where
  "webhook hexdigest config env st payload body x_signature =
     (if \<not> truthy x_signature then
        (Inl (HTTPException 401 ''invalid signature''),
         increment_webhook_request ''invalid_signature'' st)
      else
        case WEBHOOK_SECRET config of
          None \<Rightarrow> (Inl AttributeError, st)
        | Some secret \<Rightarrow>
            (case compare_digest (hexdigest (encode secret) body) (the x_signature) of
               Inl e \<Rightarrow> (Inl e, st)
             | Inr valid \<Rightarrow>
                 if \<not> valid then
                   (Inl (HTTPException 401 ''invalid signature''),
                    increment_webhook_request ''invalid_signature'' st)
                 else
                   (case insert_message env (st_db st) (message_id payload)
                           (from_msisdn payload) (to_msisdn payload) (ts payload)
                           (msg_text payload) of
                      (Inl e, db') \<Rightarrow> (Inl e, st\<lparr>st_db := db'\<rparr>)
                    | (Inr (success, is_duplicate), db') \<Rightarrow>
                        if \<not> success then
                          (Inl (HTTPException 500 ''internal server error''),
                           increment_webhook_request ''error'' (st\<lparr>st_db := db'\<rparr>))
                        else
                          (Inr \<lparr>status = ''ok''\<rparr>,
                           increment_webhook_request
                             (if is_duplicate then ''duplicate'' else ''created'')
                             (st\<lparr>st_db := db'\<rparr>)))))"

text \<open>
  A request as the framework serves it: the handler declares \<open>payload: WebhookMessage\<close>,
  so the body is decoded and validated before the handler's own code runs, and a payload
  that does not validate is answered without calling it.
\<close>

record Request =
  req_body :: string
  req_json :: RawPayload
  req_x_signature :: "string option"

definition post_webhook ::
  "(string \<Rightarrow> bool) \<Rightarrow> (string \<Rightarrow> string \<Rightarrow> string) \<Rightarrow> Config \<Rightarrow> Env \<Rightarrow> AppState \<Rightarrow> Request
     \<Rightarrow> (exn + WebhookResponse) \<times> AppState" where
  "post_webhook fromisoformat hexdigest config env st req =
     (case model_validate fromisoformat (req_json req) of
        Inl e \<Rightarrow> (Inl e, st)
      | Inr payload \<Rightarrow>
          webhook hexdigest config env st payload (req_body req) (req_x_signature req))"

text \<open>
  The status code of the answer: 200 for a returned response, the code of an
  \<open>HTTPException\<close>, 422 for a validation error, 500 for any other exception.
\<close>

definition status_code :: "exn + 'a \<Rightarrow> nat" where
  "status_code res =
     (case res of
        Inr _ \<Rightarrow> 200
      | Inl e \<Rightarrow>
          (case e of
             HTTPException code detail \<Rightarrow> code
           | RequestValidationError \<Rightarrow> 422
           | _ \<Rightarrow> 500))"


section \<open>main.py: GET /messages and GET /stats\<close>

record MessagesResponse =
  r_data :: "Message list"
  r_total :: nat
  r_limit :: int
  r_offset :: int

definition messages ::
  "table \<Rightarrow> int \<Rightarrow> int \<Rightarrow> string option \<Rightarrow> string option \<Rightarrow> string option
     \<Rightarrow> exn + MessagesResponse" where
  "messages db limit offset from_filter since q =
     (let limit1 = (if limit < 1 then 1 else limit);
          limit2 = (if limit1 > 100 then 100 else limit1);
          offset1 = (if offset < 0 then 0 else offset)
      in case get_messages db limit2 offset1 from_filter since q of
           Inl e \<Rightarrow> Inl e
         | Inr (rows, total_count) \<Rightarrow>
             Inr \<lparr>r_data = rows, r_total = total_count, r_limit = limit2,
                  r_offset = offset1\<rparr>)"

text \<open>The handler copies the five entries of the dictionary into the response.\<close>

definition stats :: "table \<Rightarrow> Stats" where
  "stats db =
     (let stats_data = get_stats db
      in \<lparr>total_messages = total_messages stats_data,
          senders_count = senders_count stats_data,
          messages_per_sender = messages_per_sender stats_data,
          first_message_ts = first_message_ts stats_data,
          last_message_ts = last_message_ts stats_data\<rparr>)"

section \<open>Example data\<close>

text \<open>
  The data of the repository's tests. \<open>test_row\<close> is the row that the helper
  \<open>insert_test_message\<close> of \<open>tests/test_messages.py\<close> and \<open>tests/test_stats.py\<close> stores
  (the value of \<open>created_at\<close> is the clock's and plays no part in the examples).
\<close>

definition test_row :: "string \<Rightarrow> string \<Rightarrow> string \<Rightarrow> Message" where
  "test_row mid sender ts_v =
     \<lparr>message_id = mid, from_msisdn = sender, to_msisdn = ''+14155550100'', ts = ts_v,
      msg_text = Some (''Test message '' @ mid),
      created_at = ''2025-02-01T00:00:00.000000Z''\<rparr>"

text \<open>\<open>test_messages_ordering\<close>, in insertion order: \<open>m2\<close> and \<open>m1\<close> carry the same \<open>ts\<close>.\<close>

definition ordering_db :: table where
  "ordering_db =
     [test_row ''m2'' ''+919876543210'' ''2025-01-10T10:00:00Z'',
      test_row ''m1'' ''+919876543210'' ''2025-01-10T10:00:00Z'',
      test_row ''m3'' ''+919876543210'' ''2025-01-11T10:00:00Z'']"

text \<open>\<open>test_messages_filter_by_text\<close>: the two rows, in insertion order.\<close>

definition hello_row :: Message where
  "hello_row =
     \<lparr>message_id = ''m1'', from_msisdn = ''+919876543210'', to_msisdn = ''+14155550100'',
      ts = ''2025-01-10T10:00:00Z'', msg_text = Some ''Hello world'',
      created_at = ''2025-02-01T00:00:00.000000Z''\<rparr>"


text \<open>A row whose text holds a NUL character between \<open>a\<close> and \<open>b\<close>.\<close>

definition nul_row :: Message where
  "nul_row =
     \<lparr>message_id = ''m3'', from_msisdn = ''+919876543210'', to_msisdn = ''+14155550100'',
      ts = ''2025-01-12T10:00:00Z'', msg_text = Some [CHR ''a'', CHR 0x00, CHR ''b''],
      created_at = ''2025-02-01T00:00:00.000000Z''\<rparr>"

text \<open>\<open>test_stats_top_10_senders\<close>: 15 messages from 15 senders.\<close>

definition fifteen_senders_db :: table where
  "fifteen_senders_db =
     [test_row ''m0'' ''+919876543200'' ''2025-01-10T10:00:00Z'',
      test_row ''m1'' ''+919876543201'' ''2025-01-11T10:00:00Z'',
      test_row ''m2'' ''+919876543202'' ''2025-01-12T10:00:00Z'',
      test_row ''m3'' ''+919876543203'' ''2025-01-13T10:00:00Z'',
      test_row ''m4'' ''+919876543204'' ''2025-01-14T10:00:00Z'',
      test_row ''m5'' ''+919876543205'' ''2025-01-15T10:00:00Z'',
      test_row ''m6'' ''+919876543206'' ''2025-01-16T10:00:00Z'',
      test_row ''m7'' ''+919876543207'' ''2025-01-17T10:00:00Z'',
      test_row ''m8'' ''+919876543208'' ''2025-01-18T10:00:00Z'',
      test_row ''m9'' ''+919876543209'' ''2025-01-19T10:00:00Z'',
      test_row ''m10'' ''+919876543210'' ''2025-01-20T10:00:00Z'',
      test_row ''m11'' ''+919876543211'' ''2025-01-21T10:00:00Z'',
      test_row ''m12'' ''+919876543212'' ''2025-01-22T10:00:00Z'',
      test_row ''m13'' ''+919876543213'' ''2025-01-23T10:00:00Z'',
      test_row ''m14'' ''+919876543214'' ''2025-01-24T10:00:00Z'']"

text \<open>
  \<open>test_webhook_valid_message\<close> of \<open>tests/test_webhook.py\<close>: the secret of
  \<open>conftest.py\<close>, the payload, its compact JSON encoding and the signature the test
  computes for it.
\<close>

definition test_config :: Config where
  "test_config = \<lparr>WEBHOOK_SECRET = Some ''test-secret-key''\<rparr>"

definition test_json :: RawPayload where
  "test_json =
     \<lparr>j_message_id = Some ''m1'', j_from = Some ''+919876543210'',
      j_to = Some ''+14155550100'', j_ts = Some ''2025-01-15T10:00:00Z'',
      j_text = Some ''Hello''\<rparr>"

definition test_body :: string where
  \<open>test_body =
     ''{"message_id":"m1","from":"+919876543210","to":"+14155550100","ts":"2025-01-15T10:00:00Z","text":"Hello"}''\<close>

definition test_signature :: string where
  "test_signature = ''4cee0bdc2cd53502252d51e79e31c410759ffaf8d0bdb9553cabf153c8cc862c''"

text \<open>
  Instances of the two library parameters for the examples: HMAC-SHA256 tabulated at the
  key and body above (any other digest is immaterial to the examples and set to zeros),
  and the one timestamp of the test payloads that \<open>datetime.fromisoformat\<close> is asked to
  parse, which it does.
\<close>

definition test_hexdigest :: "string \<Rightarrow> string \<Rightarrow> string" where
  "test_hexdigest key msg =
     (if key = ''test-secret-key'' \<and> msg = test_body then test_signature
      else replicate 64 (CHR ''0''))"

definition test_fromisoformat :: "string \<Rightarrow> bool" where
  "test_fromisoformat s = (s = ''2025-01-15T10:00:00+00:00'')"

text \<open>\<open>test_webhook_invalid_msisdn\<close>: the sender lacks the leading \<open>+\<close>.\<close>

definition invalid_msisdn_json :: RawPayload where
  "invalid_msisdn_json =
     \<lparr>j_message_id = Some ''m5'', j_from = Some ''919876543210'',
      j_to = Some ''+14155550100'', j_ts = Some ''2025-01-15T10:00:00Z'',
      j_text = Some ''Hello''\<rparr>"

definition invalid_msisdn_body :: string where
  \<open>invalid_msisdn_body =
     ''{"message_id":"m5","from":"919876543210","to":"+14155550100","ts":"2025-01-15T10:00:00Z","text":"Hello"}''\<close>

text \<open>An environment without faults, and the empty application state.\<close>

definition healthy_env :: "string \<Rightarrow> Env" where
  "healthy_env now =
     \<lparr>utcnow = now, connect_fails = False, execute_fails = False, commit_fails = False\<rparr>"

definition initial_state :: AppState where
  "initial_state = \<lparr>st_db = [], webhook_requests_total = (\<lambda>result. 0)\<rparr>"




section \<open>Predicates of the statements\<close>

text \<open>
  A signature header that the handler answers with 401: absent, empty, or an ASCII string
  other than the expected digest.
\<close>

definition rejected_signature :: "string \<Rightarrow> string option \<Rightarrow> bool" where
  "rejected_signature digest x_signature =
     (case x_signature of
        None \<Rightarrow> True
      | Some sig \<Rightarrow> sig = [] \<or> (is_ascii sig \<and> sig \<noteq> digest))"



text \<open>A row on which the \<open>WHERE\<close> clause is true.\<close>

definition row_passes :: "(Message \<Rightarrow> exn + bool) list \<Rightarrow> Message \<Rightarrow> bool" where
  "row_passes cs r = (where_clause cs r = Inr True)"

text \<open>
  \<open>substring q t\<close>: \<open>q\<close> occurs in \<open>t\<close> as a contiguous run, character for character;
  \<open>ci_substring\<close> compares after folding the ASCII letters.
\<close>

definition substring :: "string \<Rightarrow> string \<Rightarrow> bool" where
  "substring q t = list_ex (\<lambda>i. take (length q) (drop i t) = q) [0..<Suc (length t)]"

definition ci_substring :: "string \<Rightarrow> string \<Rightarrow> bool" where
  "ci_substring q t = substring (map ascii_upper q) (map ascii_upper t)"

text \<open>
  A search text that \<open>LIKE\<close> reads literally: without the two wildcards and without a
  NUL character. A search text whose pattern \<open>%q%\<close> is within the engine's limit.
\<close>

definition no_wildcard :: "string option \<Rightarrow> bool" where
  "no_wildcard q =
     (case q of
        None \<Rightarrow> True
      | Some s \<Rightarrow> CHR ''%'' \<notin> set s \<and> CHR ''_'' \<notin> set s \<and> CHR 0x00 \<notin> set s)"

definition pattern_fits :: "string option \<Rightarrow> bool" where
  "pattern_fits q =
     (case q of None \<Rightarrow> True | Some s \<Rightarrow> length (encode (''%'' @ s @ ''%'')) \<le> 50000)"


text \<open>
  The same with the comparison of the text as the engine makes it: without regard to the
  case of ASCII letters, and on the text up to its first NUL character.
\<close>

definition matches ::
  "string option \<Rightarrow> string option \<Rightarrow> string option \<Rightarrow> Message \<Rightarrow> bool" where
  "matches from_filter since q r =
     ((if truthy from_filter then from_msisdn r = the from_filter else True)
      \<and> (if truthy since then the since \<le> ts r else True)
      \<and> (if truthy q
          then (case msg_text r of None \<Rightarrow> False | Some t \<Rightarrow> ci_substring (the q) (c_str t))
          else True))"

section \<open>Scanning the table\<close>

text \<open>
  A scan returns exactly the rows on which the clause is true, unless the clause raises
  on some row; it raises on none when the pattern of \<open>q\<close> is within the limit.
\<close>

lemma select_where_no_clause: "select_where [] db = Inr db"
  by (induction db) simp_all

lemma select_where_Inr:
  "select_where cs db = Inr xs \<Longrightarrow>
     xs = filter (row_passes cs) db \<and> (\<forall>r \<in> set db. \<exists>b. where_clause cs r = Inr b)"
proof (induction db arbitrary: xs)
  case Nil
  then show ?case by simp
next
  case (Cons r rs)
  from Cons.prems obtain b ys where b: "where_clause cs r = Inr b"
    and ys: "select_where cs rs = Inr ys" and xs: "xs = (if b then r # ys else ys)"
    by (auto split: sum.splits)
  from Cons.IH[OF ys] b xs show ?case by (auto simp: row_passes_def)
qed

lemma select_where_total:
  "\<forall>r \<in> set db. \<exists>b. where_clause cs r = Inr b \<Longrightarrow>
     select_where cs db = Inr (filter (row_passes cs) db)"
  by (induction db) (auto simp: row_passes_def)

lemma where_clause_append:
  "where_clause (cs @ ds) r =
     (case where_clause cs r of
        Inl e \<Rightarrow> Inl e
      | Inr b \<Rightarrow> if b then where_clause ds r else Inr False)"
  by (induction cs) (auto split: sum.splits)

lemma where_clause_total:
  assumes "pattern_fits q"
  shows "\<exists>b. where_clause (where_clauses from_filter since q) r = Inr b"
  using assms
  by (auto simp: where_clauses_def where_clause_append sql_like_def pattern_fits_def truthy_def
      split: option.splits)

section \<open>Empty filters\<close>

lemma where_clauses_empty_from:
  "where_clauses (Some []) since q = where_clauses None since q"
  by (simp add: where_clauses_def truthy_def)

lemma where_clauses_empty_since:
  "where_clauses from_filter (Some []) q = where_clauses from_filter None q"
  by (simp add: where_clauses_def truthy_def)

lemma where_clauses_empty_q:
  "where_clauses from_filter since (Some []) = where_clauses from_filter since None"
  by (simp add: where_clauses_def truthy_def)

lemma where_clauses_none: "where_clauses None None None = []"
  by (simp add: where_clauses_def truthy_def)

text \<open>
  C9. A filter given as the empty string is treated like an absent one, in
  \<open>get_messages\<close> and in the \<open>/messages\<close> handler: each of \<open>from_msisdn=""\<close>,
  \<open>since=""\<close>, \<open>q=""\<close> gives the result of the call without that filter, and with all
  three empty every row is counted, whatever its sender and also when its text is null.
\<close>

theorem empty_filter_is_absent:
  "get_messages db limit offset (Some []) since q = get_messages db limit offset None since q
   \<and> get_messages db limit offset from_filter (Some []) q
       = get_messages db limit offset from_filter None q
   \<and> get_messages db limit offset from_filter since (Some [])
       = get_messages db limit offset from_filter since None
   \<and> messages db limit offset (Some []) since q = messages db limit offset None since q
   \<and> messages db limit offset from_filter (Some []) q
       = messages db limit offset from_filter None q
   \<and> messages db limit offset from_filter since (Some [])
       = messages db limit offset from_filter since None
   \<and> get_messages db 100 0 (Some []) (Some []) (Some [])
       = Inr (take 100 (sort_key order_key db), length db)"
  by (simp add: get_messages_def messages_def where_clauses_empty_from
      where_clauses_empty_since where_clauses_empty_q where_clauses_none
      select_where_no_clause sqlite_int_def sql_limit_def)

section \<open>Ordering of a page\<close>

lemma order_key_less:
  "order_key a < order_key b \<longleftrightarrow> ts a < ts b \<or> (ts a = ts b \<and> message_id a < message_id b)"
  by (auto simp: order_key_def)

lemma order_key_inj: "distinct (map message_id xs) \<Longrightarrow> inj_on order_key (set xs)"
  by (auto simp: inj_on_def order_key_def distinct_map)

lemma sorted_page_strict:
  assumes "distinct (map message_id xs)"
  shows "sorted_wrt (\<lambda>a b. order_key a < order_key b) (sort_key order_key xs)"
proof -
  have "distinct (map order_key xs)"
    using assms order_key_inj[OF assms] by (simp add: distinct_map)
  then have "distinct (map order_key (sort_key order_key xs))"
    by (metis distinct_map distinct_sort set_sort)
  moreover have "sorted (map order_key (sort_key order_key xs))"
    by (rule sorted_sort_key)
  ultimately have "sorted_wrt (<) (map order_key (sort_key order_key xs))"
    using strict_sorted_iff by blast
  then show ?thesis by (simp add: sorted_wrt_map)
qed

lemma sql_limit_sorted_wrt: "sorted_wrt R xs \<Longrightarrow> sorted_wrt R (sql_limit limit offset xs)"
  by (simp add: sql_limit_def Let_def)

lemma same_rows_mset:
  assumes "distinct (map message_id xs)" "distinct (map message_id ys)" "set xs = set ys"
  shows "mset xs = mset ys"
  using assms by (metis distinct_map set_eq_iff_mset_eq_distinct)

lemma sort_same_rows:
  assumes "distinct (map message_id xs)" "mset xs = mset ys"
  shows "sort_key order_key xs = sort_key order_key ys"
proof -
  have "inj_on order_key (set xs)" by (rule order_key_inj[OF assms(1)])
  moreover have "mset xs = mset (sort_key order_key ys)" using assms(2) by simp
  moreover have "sorted (map order_key (sort_key order_key ys))" by (rule sorted_sort_key)
  ultimately show ?thesis using sort_key_inj_key_eq by blast
qed

lemma filter_same_rows:
  assumes "distinct (map message_id xs)" "distinct (map message_id ys)" "set xs = set ys"
  shows "mset (filter P xs) = mset (filter P ys)"
  using same_rows_mset[OF assms] by (metis mset_filter)

lemma get_messages_Inr:
  assumes "get_messages db limit offset from_filter since q = Inr (rows, n)"
  shows "select_where (where_clauses from_filter since q) db
           = Inr (filter (row_passes (where_clauses from_filter since q)) db)"
    and "sqlite_int limit \<and> sqlite_int offset"
    and "rows = sql_limit limit offset
                  (sort_key order_key
                     (filter (row_passes (where_clauses from_filter since q)) db))"
    and "n = length (filter (row_passes (where_clauses from_filter since q)) db)"
proof -
  from assms obtain xs where xs: "select_where (where_clauses from_filter since q) db = Inr xs"
    by (auto simp: get_messages_def split: sum.splits)
  from select_where_Inr[OF xs]
  have f: "xs = filter (row_passes (where_clauses from_filter since q)) db" by simp
  with xs show "select_where (where_clauses from_filter since q) db
           = Inr (filter (row_passes (where_clauses from_filter since q)) db)" by simp
  from assms xs show ok: "sqlite_int limit \<and> sqlite_int offset"
    by (auto simp: get_messages_def Let_def split: if_splits)
  from assms xs f ok
  show "rows = sql_limit limit offset
                  (sort_key order_key
                     (filter (row_passes (where_clauses from_filter since q)) db))"
    and "n = length (filter (row_passes (where_clauses from_filter since q)) db)"
    by (auto simp: get_messages_def Let_def)
qed

text \<open>
  C6. The page \<open>get_messages\<close> returns is sorted by \<open>ts\<close> ascending, rows of equal \<open>ts\<close>
  by \<open>message_id\<close> ascending; the order is strict, so it is total on the rows of a table
  with unique \<open>message_id\<close>. The result is determined by the set of stored rows and the
  parameters: a table holding the same rows in another physical order gives the identical
  page and total.
\<close>

theorem page_sorted_and_deterministic:
  assumes "pk_unique db" and "pk_unique db'" and "set db' = set db"
    and "get_messages db limit offset from_filter since q = Inr (rows, n)"
  shows "sorted_wrt (\<lambda>a b. ts a < ts b \<or> (ts a = ts b \<and> message_id a < message_id b)) rows
         \<and> get_messages db' limit offset from_filter since q = Inr (rows, n)"
proof -
  let ?cs = "where_clauses from_filter since q"
  let ?P = "row_passes ?cs"
  note g = get_messages_Inr[OF assms(4)]
  from assms(4) obtain xs where xs: "select_where ?cs db = Inr xs"
    by (auto simp: get_messages_def split: sum.splits)
  from select_where_Inr[OF xs] assms(3)
  have "\<forall>r \<in> set db'. \<exists>b. where_clause ?cs r = Inr b" by simp
  then have sel': "select_where ?cs db' = Inr (filter ?P db')" by (rule select_where_total)
  have d: "distinct (map message_id (filter ?P db))"
    using assms(1) by (simp add: pk_unique_def distinct_map_filter)
  have ms: "mset (filter ?P db') = mset (filter ?P db)"
    using assms(1-3) by (intro filter_same_rows) (simp_all add: pk_unique_def)
  have d': "distinct (map message_id (filter ?P db'))"
    using assms(2) by (simp add: pk_unique_def distinct_map_filter)
  have srt: "sort_key order_key (filter ?P db') = sort_key order_key (filter ?P db)"
    by (rule sort_same_rows[OF d' ms])
  have len: "length (filter ?P db') = length (filter ?P db)"
    using ms by (metis size_mset)
  have "sorted_wrt (\<lambda>a b. order_key a < order_key b) rows"
    unfolding g(3) by (rule sql_limit_sorted_wrt[OF sorted_page_strict[OF d]])
  then have 1: "sorted_wrt (\<lambda>a b. ts a < ts b \<or> (ts a = ts b \<and> message_id a < message_id b)) rows"
    by (simp add: order_key_less)
  have 2: "get_messages db' limit offset from_filter since q = Inr (rows, n)"
    using g(2) by (simp add: get_messages_def Let_def sel' srt len g(3) g(4))
  from 1 2 show ?thesis by blast
qed

theorem page_sorted_and_deterministic_witness:
  "pk_unique ordering_db \<and> pk_unique (rev ordering_db)
   \<and> set (rev ordering_db) = set ordering_db
   \<and> get_messages ordering_db 50 0 None None None
       = Inr ([ordering_db ! 1, ordering_db ! 0, ordering_db ! 2], 3)
   \<and> get_messages (rev ordering_db) 50 0 None None None
       = Inr ([ordering_db ! 1, ordering_db ! 0, ordering_db ! 2], 3)
   \<and> map message_id [ordering_db ! 1, ordering_db ! 0, ordering_db ! 2] = [''m1'', ''m2'', ''m3'']"
proof -
  have h1: "pk_unique ordering_db" by code_simp
  have h2: "pk_unique (rev ordering_db)" by code_simp
  have h3: "set (rev ordering_db) = set ordering_db" by simp
  have h4: "get_messages ordering_db 50 0 None None None
       = Inr ([ordering_db ! 1, ordering_db ! 0, ordering_db ! 2], 3)" by code_simp
  have h5: "map message_id [ordering_db ! 1, ordering_db ! 0, ordering_db ! 2] = [''m1'', ''m2'', ''m3'']"
    by code_simp
  from page_sorted_and_deterministic[OF h1 h2 h3 h4] h1 h2 h3 h4 h5 show ?thesis by blast
qed

section \<open>Pagination\<close>

text \<open>
  With an offset that fits a 64-bit integer and a search text whose pattern is within the
  limit of \<open>LIKE\<close>, the handler answers with the page, the count of all matching rows and
  the clamped limit and offset.
\<close>

lemma messages_in_range:
  assumes "offset < 2 ^ 63" and "pattern_fits q"
  shows "messages db limit offset from_filter since q =
           Inr \<lparr>r_data = take (nat (max 1 (min 100 limit)))
                          (drop (nat (max 0 offset))
                             (sort_key order_key
                                (filter (row_passes (where_clauses from_filter since q)) db))),
                r_total = length (filter (row_passes (where_clauses from_filter since q)) db),
                r_limit = max 1 (min 100 limit),
                r_offset = max 0 offset\<rparr>"
proof -
  have "sqlite_int (max 1 (min 100 limit))" by (simp add: sqlite_int_def max_def min_def)
  moreover have "sqlite_int (max 0 offset)" using assms(1) by (simp add: sqlite_int_def max_def)
  moreover have "(if (if limit < 1 then 1 else limit) > 100 then 100
                  else (if limit < 1 then 1 else limit)) = max 1 (min 100 limit)"
    by (simp add: max_def min_def)
  moreover have "(if offset < 0 then 0 else offset) = max 0 offset" by (simp add: max_def)
  moreover have "select_where (where_clauses from_filter since q) db
           = Inr (filter (row_passes (where_clauses from_filter since q)) db)"
    using where_clause_total[OF assms(2)] by (intro select_where_total) blast
  ultimately show ?thesis
    by (simp add: messages_def get_messages_def Let_def sql_limit_def)
qed


text \<open>
  C5. The handler clamps \<open>limit\<close> to 1..100 and \<open>offset\<close> to at least 0 but puts no upper
  bound on \<open>offset\<close>: at \<open>offset = 2^63\<close> the bound parameter does not fit SQLite's
  integer, \<open>cursor.execute\<close> raises \<open>OverflowError\<close>, and the request is answered with 500
  instead of a page with total, limit and offset.
\<close>

theorem messages_huge_offset:
  "messages db 50 9223372036854775808 None None None = Inl OverflowError
   \<and> status_code (messages db 50 9223372036854775808 None None None) = 500"
  by (simp add: messages_def get_messages_def where_clauses_none select_where_no_clause
      Let_def sqlite_int_def status_code_def)

section \<open>Signature check\<close>

text \<open>
  C7. A wrong signature that holds a character outside ASCII (here the single Latin-1
  character E9) makes \<open>hmac.compare_digest\<close> raise \<open>TypeError\<close>, which the handler does
  not catch: the answer is 500, where a missing signature is answered with 401.
\<close>

theorem webhook_non_ascii_signature:
  "webhook hexdigest \<lparr>WEBHOOK_SECRET = Some secret\<rparr> env st payload body (Some [CHR 0xE9])
     = (Inl TypeError, st)
   \<and> status_code (fst (webhook hexdigest \<lparr>WEBHOOK_SECRET = Some secret\<rparr> env st payload body
                          (Some [CHR 0xE9]))) = 500
   \<and> status_code (fst (webhook hexdigest \<lparr>WEBHOOK_SECRET = Some secret\<rparr> env st payload body
                          None)) = 401"
  by (simp add: webhook_def truthy_def compare_digest_def is_ascii_def status_code_def)

section \<open>Outcomes of insert_message\<close>

text \<open>
  C10. \<open>insert_message\<close> opens the connection before its \<open>try\<close>: when
  \<open>sqlite3.connect\<close> fails, the \<open>OperationalError\<close> leaves the function instead of
  becoming \<open>(False, False)\<close>.
\<close>

theorem insert_message_connect_error:
  "insert_message \<lparr>utcnow = now, connect_fails = True, execute_fails = ef, commit_fails = cf\<rparr>
       db mid from_v to_v ts_v text_v
     = (Inl OperationalError, db)"
  by (simp add: insert_message_def)

text \<open>
  C8. On the same path (the connection cannot be opened) the call has none of the three
  outcomes \<open>(True, False)\<close>, \<open>(True, True)\<close>, \<open>(False, False)\<close>.
\<close>

theorem insert_message_no_outcome:
  "fst (insert_message
          \<lparr>utcnow = ''2025-02-01T00:00:00'', connect_fails = True, execute_fails = False,
           commit_fails = False\<rparr>
          [] ''m1'' ''+919876543210'' ''+14155550100'' ''2025-01-15T10:00:00Z'' (Some ''Hello''))
     \<notin> {Inr (True, False), Inr (True, True), Inr (False, False)}"
  by (simp add: insert_message_def)

text \<open>
  Every path of \<open>insert_message\<close>: the table is unchanged except on the created path, which
  appends one row with all six columns set.
\<close>

lemma insert_message_outcomes:
  "insert_message env db mid from_v to_v ts_v text_v =
     (if connect_fails env then (Inl OperationalError, db)
      else if execute_fails env then (Inr (False, False), db)
      else if mid \<in> set (map message_id db) then (Inr (True, True), db)
      else if commit_fails env then (Inr (False, False), db)
      else (Inr (True, False),
            db @ [\<lparr>message_id = mid, from_msisdn = from_v, to_msisdn = to_v, ts = ts_v,
                   msg_text = text_v, created_at = utcnow env @ ''Z''\<rparr>]))"
  by (simp add: insert_message_def execute_insert_def)

lemma insert_message_pk_unique:
  "pk_unique db \<Longrightarrow> pk_unique (snd (insert_message env db mid from_v to_v ts_v text_v))"
  by (simp add: insert_message_outcomes pk_unique_def)

section \<open>Rejections of POST /webhook\<close>

lemma model_validate_cases:
  "model_validate fromisoformat j = Inl RequestValidationError
   \<or> (\<exists>payload. model_validate fromisoformat j = Inr payload)"
  by (simp add: model_validate_def)

lemma webhook_missing_signature:
  "\<not> truthy x_signature \<Longrightarrow>
   webhook hexdigest config env st payload body x_signature
     = (Inl (HTTPException 401 ''invalid signature''),
        increment_webhook_request ''invalid_signature'' st)"
  by (simp add: webhook_def)

lemma webhook_wrong_signature:
  assumes "WEBHOOK_SECRET config = Some secret"
    and "is_ascii (hexdigest (encode secret) body)"
    and "is_ascii sig" and "sig \<noteq> hexdigest (encode secret) body"
  shows "webhook hexdigest config env st payload body (Some sig)
     = (Inl (HTTPException 401 ''invalid signature''),
        increment_webhook_request ''invalid_signature'' st)"
  using assms by (auto simp: webhook_def compare_digest_def truthy_def)

lemma st_db_increment [simp]: "st_db (increment_webhook_request result st) = st_db st"
  by (simp add: increment_webhook_request_def)

text \<open>
  C1 (amended). The payload is validated before the handler's code runs: a request whose
  payload fails validation is answered with 422, whatever its signature, and the state is
  unchanged. A request whose payload validates and whose signature header is absent, empty
  or an ASCII string other than the expected digest is answered with 401 and the table is
  unchanged.
\<close>

theorem unauthorized_after_validation:
  assumes "WEBHOOK_SECRET config = Some secret"
    and "is_ascii (hexdigest (encode secret) (req_body req))"
    and "post_webhook fromisoformat hexdigest config env st req = (res, st')"
  shows "(case model_validate fromisoformat (req_json req) of
            Inl e \<Rightarrow> res = Inl RequestValidationError \<and> status_code res = 422 \<and> st' = st
          | Inr payload \<Rightarrow>
              rejected_signature (hexdigest (encode secret) (req_body req)) (req_x_signature req)
              \<longrightarrow> res = Inl (HTTPException 401 ''invalid signature'')
                  \<and> status_code res = 401 \<and> st_db st' = st_db st)"
proof (cases "model_validate fromisoformat (req_json req)")
  case (Inl e)
  then have "e = RequestValidationError"
    using model_validate_cases[of fromisoformat "req_json req"] by auto
  with Inl assms(3) show ?thesis by (auto simp: post_webhook_def status_code_def)
next
  case (Inr payload)
  have post: "post_webhook fromisoformat hexdigest config env st req
      = webhook hexdigest config env st payload (req_body req) (req_x_signature req)"
    using Inr by (simp add: post_webhook_def)
  have "res = Inl (HTTPException 401 ''invalid signature'') \<and> status_code res = 401
        \<and> st_db st' = st_db st"
    if rej: "rejected_signature (hexdigest (encode secret) (req_body req)) (req_x_signature req)"
  proof (cases "truthy (req_x_signature req)")
    case False
    from webhook_missing_signature[OF False] post assms(3) show ?thesis
      by (auto simp: status_code_def)
  next
    case True
    then obtain sig where sig: "req_x_signature req = Some sig" "sig \<noteq> []"
      by (auto simp: truthy_def split: option.splits)
    with rej have "is_ascii sig" "sig \<noteq> hexdigest (encode secret) (req_body req)"
      by (auto simp: rejected_signature_def)
    then have "webhook hexdigest config env st payload (req_body req) (Some sig)
        = (Inl (HTTPException 401 ''invalid signature''),
           increment_webhook_request ''invalid_signature'' st)"
      using assms(1,2) by (simp add: webhook_wrong_signature)
    with post assms(3) sig show ?thesis
      by (auto simp: status_code_def)
  qed
  with Inr show ?thesis by auto
qed

text \<open>
  The payload of \<open>test_webhook_invalid_msisdn\<close> sent without a signature is answered with
  422, not 401.
\<close>

theorem validation_before_signature:
  "model_validate test_fromisoformat invalid_msisdn_json = Inl RequestValidationError
   \<and> status_code (fst (post_webhook test_fromisoformat test_hexdigest test_config
                          (healthy_env ''2025-02-01T00:00:00'') initial_state
                          \<lparr>req_body = invalid_msisdn_body, req_json = invalid_msisdn_json,
                           req_x_signature = None\<rparr>)) = 422"
  by code_simp

theorem unauthorized_after_validation_witness:
  "WEBHOOK_SECRET test_config = Some ''test-secret-key''
   \<and> is_ascii (test_hexdigest (encode ''test-secret-key'') test_body)
   \<and> rejected_signature (test_hexdigest (encode ''test-secret-key'') test_body)
        (Some ''invalid_signature_here'')
   \<and> post_webhook test_fromisoformat test_hexdigest test_config
        (healthy_env ''2025-02-01T00:00:00'') initial_state
        \<lparr>req_body = test_body, req_json = test_json,
         req_x_signature = Some ''invalid_signature_here''\<rparr>
       = (Inl (HTTPException 401 ''invalid signature''),
          increment_webhook_request ''invalid_signature'' initial_state)
   \<and> st_db (increment_webhook_request ''invalid_signature'' initial_state) = st_db initial_state"
proof -
  let ?req = "\<lparr>req_body = test_body, req_json = test_json,
                req_x_signature = Some ''invalid_signature_here''\<rparr>"
  let ?out = "post_webhook test_fromisoformat test_hexdigest test_config
                (healthy_env ''2025-02-01T00:00:00'') initial_state ?req"
  have h1: "WEBHOOK_SECRET test_config = Some ''test-secret-key''" by (simp add: test_config_def)
  have h2: "is_ascii (test_hexdigest (encode ''test-secret-key'') (req_body ?req))" by code_simp
  have h3: "?out = (fst ?out, snd ?out)" by simp
  have v: "model_validate test_fromisoformat (req_json ?req)
             = Inr \<lparr>message_id = ''m1'', from_msisdn = ''+919876543210'',
                    to_msisdn = ''+14155550100'', ts = ''2025-01-15T10:00:00Z'',
                    msg_text = Some ''Hello''\<rparr>" by code_simp
  have r: "rejected_signature (test_hexdigest (encode ''test-secret-key'') (req_body ?req))
             (req_x_signature ?req)" by code_simp
  from unauthorized_after_validation[OF h1 h2 h3] v r
  have "fst ?out = Inl (HTTPException 401 ''invalid signature'') \<and> st_db (snd ?out) = st_db initial_state"
    by simp
  moreover have "snd ?out = increment_webhook_request ''invalid_signature'' initial_state"
    using webhook_wrong_signature[of test_config "''test-secret-key''" test_hexdigest test_body "''invalid_signature_here''"]
      h1 h2 r v by (simp add: post_webhook_def rejected_signature_def)
  ultimately show ?thesis using h1 h2 r by (simp add: prod_eq_iff)
qed

section \<open>Idempotent delivery\<close>







section \<open>Filters\<close>

lemma like_percent: "like_match ''%'' t"
  by (induction t) auto

lemma like_prefix:
  assumes "CHR ''%'' \<notin> set q" and "CHR ''_'' \<notin> set q"
  shows "like_match (q @ ''%'') t \<longleftrightarrow>
           length q \<le> length t \<and> map ascii_upper (take (length q) t) = map ascii_upper q"
  using assms
proof (induction q arbitrary: t)
  case Nil
  then show ?case by (simp add: like_percent)
next
  case (Cons c cs)
  then have c: "c \<noteq> CHR ''%''" "c \<noteq> CHR ''_''"
    and cs: "CHR ''%'' \<notin> set cs" "CHR ''_'' \<notin> set cs" by auto
  show ?case
  proof (cases t)
    case Nil
    with c show ?thesis by simp
  next
    case (Cons d ds)
    with c Cons.IH[OF cs, of ds] show ?thesis by auto
  qed
qed

lemma like_percent_any:
  "like_match (CHR ''%'' # p) t \<longleftrightarrow> (\<exists>i\<le>length t. like_match p (drop i t))"
proof (induction t)
  case Nil
  then show ?case by simp
next
  case (Cons d ds)
  have "(\<exists>i\<le>length (d # ds). like_match p (drop i (d # ds)))
          \<longleftrightarrow> like_match p (d # ds) \<or> (\<exists>i\<le>length ds. like_match p (drop i ds))"
  proof
    assume "\<exists>i\<le>length (d # ds). like_match p (drop i (d # ds))"
    then obtain i where i: "i \<le> length (d # ds)" "like_match p (drop i (d # ds))" by blast
    show "like_match p (d # ds) \<or> (\<exists>i\<le>length ds. like_match p (drop i ds))"
    proof (cases i)
      case 0
      with i show ?thesis by simp
    next
      case (Suc j)
      with i have "j \<le> length ds" "like_match p (drop j ds)" by simp_all
      then show ?thesis by blast
    qed
  next
    assume "like_match p (d # ds) \<or> (\<exists>i\<le>length ds. like_match p (drop i ds))"
    then show "\<exists>i\<le>length (d # ds). like_match p (drop i (d # ds))"
    proof
      assume "like_match p (d # ds)"
      then have "like_match p (drop 0 (d # ds))" by simp
      then show ?thesis by blast
    next
      assume "\<exists>i\<le>length ds. like_match p (drop i ds)"
      then obtain j where "j \<le> length ds" "like_match p (drop j ds)" by blast
      then have "Suc j \<le> length (d # ds)" "like_match p (drop (Suc j) (d # ds))" by simp_all
      then show ?thesis by blast
    qed
  qed
  with Cons show ?case by simp
qed

lemma substring_iff:
  "substring q t \<longleftrightarrow> (\<exists>i\<le>length t. take (length q) (drop i t) = q)"
proof -
  have "substring q t \<longleftrightarrow> (\<exists>i\<in>{0..<Suc (length t)}. take (length q) (drop i t) = q)"
    by (simp only: substring_def list_ex_iff set_upt)
  also have "\<dots> \<longleftrightarrow> (\<exists>i\<le>length t. take (length q) (drop i t) = q)"
    by (meson atLeastLessThan_iff less_Suc_eq_le zero_le)
  finally show ?thesis .
qed

lemma map_take_eq:
  "map f (take (length q) xs) = map f q
     \<longleftrightarrow> length q \<le> length xs \<and> map f (take (length q) xs) = map f q"
proof
  assume h: "map f (take (length q) xs) = map f q"
  then have "length (take (length q) xs) = length q" by (rule map_eq_imp_length_eq)
  then have "length q \<le> length xs" by simp
  with h show "length q \<le> length xs \<and> map f (take (length q) xs) = map f q" by simp
qed simp


lemma like_contains:
  assumes "CHR ''%'' \<notin> set q" and "CHR ''_'' \<notin> set q"
  shows "like_match (''%'' @ q @ ''%'') t \<longleftrightarrow> ci_substring q t"
proof -
  have "like_match (''%'' @ q @ ''%'') t
          \<longleftrightarrow> (\<exists>i\<le>length t. like_match (q @ ''%'') (drop i t))"
    using like_percent_any[of "q @ ''%''" t] by simp
  also have "\<dots> \<longleftrightarrow> (\<exists>i\<le>length t. length q \<le> length (drop i t)
                \<and> map ascii_upper (take (length q) (drop i t)) = map ascii_upper q)"
    using like_prefix[OF assms] by simp
  also have "\<dots> \<longleftrightarrow> (\<exists>i\<le>length t.
                map ascii_upper (take (length q) (drop i t)) = map ascii_upper q)"
    using map_take_eq[of ascii_upper q] by blast
  also have "\<dots> \<longleftrightarrow> ci_substring q t"
    by (simp add: ci_substring_def substring_iff take_map drop_map)
  finally show ?thesis .
qed



lemma c_str_plain: "CHR 0x00 \<notin> set s \<Longrightarrow> c_str s = s"
  by (auto simp: c_str_def takeWhile_eq_all_conv)

lemma length_encode: "length s \<le> length (encode s)"
proof (induction s)
  case Nil
  then show ?case by (simp add: encode_def)
next
  case (Cons c cs)
  then show ?case by (simp add: encode_def)
qed

lemma sql_like_plain:
  assumes "CHR ''%'' \<notin> set s" and "CHR ''_'' \<notin> set s" and "CHR 0x00 \<notin> set s"
    and "length (encode (''%'' @ s @ ''%'')) \<le> 50000"
  shows "sql_like v (''%'' @ s @ ''%'')
           = Inr (case v of None \<Rightarrow> False | Some t \<Rightarrow> ci_substring s (c_str t))"
proof -
  have "CHR 0x00 \<notin> set (''%'' @ s @ ''%'')" using assms(3) by simp
  then have p: "c_str (''%'' @ s @ ''%'') = ''%'' @ s @ ''%''" by (rule c_str_plain)
  have "like_match (''%'' @ s @ ''%'') t = ci_substring s t" for t
    by (rule like_contains[OF assms(1,2)])
  with p assms(4) show ?thesis
    by (simp add: sql_like_def split: option.splits)
qed

lemma where_clause_fits:
  assumes "no_wildcard q" and "pattern_fits q"
  shows "where_clause (where_clauses from_filter since q) r
           = Inr (matches from_filter since q r)"
proof (cases "truthy q")
  case False
  then show ?thesis
    by (simp add: where_clauses_def where_clause_append matches_def)
next
  case True
  then obtain s where s: "q = Some s" by (auto simp: truthy_def split: option.splits)
  with assms have "CHR ''%'' \<notin> set s" "CHR ''_'' \<notin> set s" "CHR 0x00 \<notin> set s"
    "length (encode (''%'' @ s @ ''%'')) \<le> 50000"
    by (simp_all add: no_wildcard_def pattern_fits_def)
  from sql_like_plain[OF this]
  have "\<And>v. sql_like v (CHR ''%'' # s @ ''%'')
           = Inr (case v of None \<Rightarrow> False | Some t \<Rightarrow> ci_substring s (c_str t))" by simp
  with True s show ?thesis
    by (simp add: where_clauses_def where_clause_append matches_def split: option.splits)
qed


lemma select_where_fits:
  assumes "no_wildcard q" and "pattern_fits q"
  shows "select_where (where_clauses from_filter since q) db
           = Inr (filter (matches from_filter since q) db)"
proof -
  let ?cs = "where_clauses from_filter since q"
  have t: "\<forall>r \<in> set db. \<exists>b. where_clause ?cs r = Inr b"
    using where_clause_fits[OF assms] by blast
  have "filter (row_passes ?cs) db = filter (matches from_filter since q) db"
    using where_clause_fits[OF assms] by (simp add: row_passes_def cong: filter_cong)
  with select_where_total[OF t] show ?thesis by simp
qed




lemma encode_ascii: "is_ascii s \<Longrightarrow> encode s = s"
  by (induction s) (simp_all add: is_ascii_def encode_def)

lemma pattern_fits_ascii:
  assumes "is_ascii (''%'' @ s @ ''%'')" and "length s \<le> 49998"
  shows "pattern_fits (Some s)"
proof -
  have "encode (''%'' @ s @ ''%'') = ''%'' @ s @ ''%''" by (rule encode_ascii[OF assms(1)])
  with assms(2) show ?thesis by (simp add: pattern_fits_def)
qed

lemma sql_like_short:
  assumes "is_ascii pat" and "length pat \<le> 50000"
  shows "sql_like v pat
           = Inr (case v of None \<Rightarrow> False | Some s \<Rightarrow> like_match (c_str pat) (c_str s))"
  using assms(2) by (simp add: sql_like_def encode_ascii[OF assms(1)])



section \<open>What LIKE does with a NUL character and with a long pattern\<close>

text \<open>
  A text is searched up to its first NUL character only; a search text that is a NUL
  character gives the pattern \<open>%\<close>, which every non-null text matches; a search text of
  49999 characters gives a pattern beyond the limit and the query raises.
\<close>

lemma like_stops_at_nul_in_text:
  "get_messages [nul_row] 50 0 None None (Some ''b'') = Inr ([], 0)"
proof -
  have nw: "no_wildcard (Some ''b'')" by code_simp
  have "is_ascii (''%'' @ ''b'' @ ''%'')" by code_simp
  then have fit: "pattern_fits (Some ''b'')" by (rule pattern_fits_ascii) simp
  have f: "filter (matches None None (Some ''b'')) [nul_row] = []" by code_simp
  show ?thesis
    unfolding get_messages_def select_where_fits[OF nw fit] f
    by (simp add: sqlite_int_def sql_limit_def)
qed

lemma like_stops_at_nul_in_pattern:
  "get_messages [hello_row] 50 0 None None (Some [CHR 0x00]) = Inr ([hello_row], 1)"
proof -
  have a: "is_ascii (''%'' @ [CHR 0x00] @ ''%'')" by code_simp
  have l: "length (''%'' @ [CHR 0x00] @ ''%'') \<le> 50000" by simp
  have m: "like_match (c_str (''%'' @ [CHR 0x00] @ ''%'')) (c_str ''Hello world'')" by code_simp
  have t: "msg_text hello_row = Some ''Hello world''" by (simp add: hello_row_def)
  have "where_clause (where_clauses None None (Some [CHR 0x00])) hello_row = Inr True"
    using sql_like_short[OF a l, of "msg_text hello_row"] m t
    by (simp add: where_clauses_def truthy_def)
  then show ?thesis
    by (simp add: get_messages_def sqlite_int_def sql_limit_def)
qed

lemma like_pattern_too_long:
  "get_messages [hello_row] 50 0 None None (Some (replicate 49999 (CHR ''b'')))
     = Inl OperationalError"
proof -
  let ?q = "replicate 49999 (CHR ''b'')"
  have "length (''%'' @ ?q @ ''%'') \<le> length (encode (''%'' @ ?q @ ''%''))"
    by (rule length_encode)
  then have "50000 < length (encode (''%'' @ ?q @ ''%''))" by simp
  then have "sql_like (msg_text hello_row) (''%'' @ ?q @ ''%'') = Inl OperationalError"
    by (simp add: sql_like_def)
  moreover have "truthy (Some ?q)" by (simp add: truthy_def)
  ultimately have "where_clause (where_clauses None None (Some ?q)) hello_row
                     = Inl OperationalError"
    by (simp add: where_clauses_def truthy_def)
  then show ?thesis by (simp add: get_messages_def)
qed

section \<open>Aggregation\<close>

lemma stats_get_stats: "stats db = get_stats db"
  by (simp add: stats_def Let_def)

lemma senders_count_card:
  "length (remdups (map from_msisdn db)) = card (from_msisdn ` set db)"
  by (simp add: length_remdups_card_conv)

lemma length_group_by_sender:
  "length (group_by_sender db) = length (remdups (map from_msisdn db))"
  by (simp add: group_by_sender_def)

lemma set_group_by_sender:
  "set (group_by_sender db) = (\<lambda>s. (s, count_from db s)) ` from_msisdn ` set db"
  by (simp add: group_by_sender_def)

lemma distinct_group_by_sender: "distinct (map fst (group_by_sender db))"
  by (simp add: group_by_sender_def comp_def)

lemma top_senders_alt:
  "top_senders db = take 10 (sort_key by_count_desc (group_by_sender db))"
  by (simp add: top_senders_def)

lemma sorted_groups_desc:
  "sorted_wrt (\<lambda>a b. snd b \<le> snd a) (sort_key by_count_desc (group_by_sender db))"
proof -
  have "sorted (map by_count_desc (sort_key by_count_desc (group_by_sender db)))"
    by (rule sorted_sort_key)
  then show ?thesis by (simp add: sorted_map by_count_desc_def)
qed

lemma distinct_sorted_groups:
  "distinct (map fst (sort_key by_count_desc (group_by_sender db)))"
proof -
  have "mset (map fst (sort_key by_count_desc (group_by_sender db)))
          = mset (map fst (group_by_sender db))" by simp
  then show ?thesis using distinct_group_by_sender[of db] by (metis mset_eq_imp_distinct_iff)
qed

lemma top_senders_length:
  "length (top_senders db) = min 10 (length (remdups (map from_msisdn db)))"
  by (simp add: top_senders_alt length_group_by_sender min.commute)

lemma top_senders_distinct: "distinct (map fst (top_senders db))"
  using distinct_sorted_groups[of db] by (simp add: top_senders_alt take_map[symmetric])

lemma top_senders_entries:
  assumes "g \<in> set (top_senders db)"
  shows "fst g \<in> from_msisdn ` set db \<and> snd g = length (filter (\<lambda>r. from_msisdn r = fst g) db)"
proof -
  from assms have "g \<in> set (sort_key by_count_desc (group_by_sender db))"
    unfolding top_senders_alt by (rule in_set_takeD)
  then have "g \<in> set (group_by_sender db)" by simp
  then show ?thesis by (auto simp: set_group_by_sender count_from_def)
qed

lemma top_senders_sorted: "sorted_wrt (\<lambda>a b. snd b \<le> snd a) (top_senders db)"
  using sorted_groups_desc[of db] by (simp add: top_senders_alt)

lemma top_senders_are_top:
  assumes "s \<in> from_msisdn ` set db" and "s \<notin> fst ` set (top_senders db)"
    and "g \<in> set (top_senders db)"
  shows "length (filter (\<lambda>r. from_msisdn r = s) db) \<le> snd g"
proof -
  let ?L = "sort_key by_count_desc (group_by_sender db)"
  have "(s, count_from db s) \<in> set ?L" using assms(1) by (simp add: set_group_by_sender)
  then have "(s, count_from db s) \<in> set (take 10 ?L) \<union> set (drop 10 ?L)"
    by (metis append_take_drop_id set_append)
  moreover have "(s, count_from db s) \<notin> set (take 10 ?L)"
    using assms(2) by (force simp: top_senders_alt)
  ultimately have d: "(s, count_from db s) \<in> set (drop 10 ?L)" by blast
  have "sorted_wrt (\<lambda>a b. snd b \<le> snd a) (take 10 ?L @ drop 10 ?L)"
    using sorted_groups_desc[of db] by simp
  then have "\<forall>x \<in> set (take 10 ?L). \<forall>y \<in> set (drop 10 ?L). snd y \<le> snd x"
    unfolding sorted_wrt_append by blast
  with d assms(3) show ?thesis by (force simp: top_senders_alt count_from_def)
qed

lemma sql_min_Min: "xs \<noteq> [] \<Longrightarrow> sql_min xs = Some (Min (set xs))"
  by (cases xs) (simp_all add: sql_min_def Min.set_eq_fold[symmetric])

lemma sql_max_Max: "xs \<noteq> [] \<Longrightarrow> sql_max xs = Some (Max (set xs))"
  by (cases xs) (simp_all add: sql_max_def Max.set_eq_fold[symmetric])

lemma first_ts:
  assumes "list_all (\<lambda>r. ts r \<noteq> []) db"
  shows "or_none (sql_min (map ts db)) = (if db = [] then None else Some (Min (ts ` set db)))"
proof (cases "db = []")
  case True
  then show ?thesis by (simp add: sql_min_def or_none_def truthy_def)
next
  case False
  then have "Min (ts ` set db) \<in> ts ` set db" by (intro Min_in) simp_all
  with assms have "Min (ts ` set db) \<noteq> []" by (auto simp: list_all_iff)
  with False show ?thesis by (simp add: sql_min_Min or_none_def truthy_def)
qed

lemma last_ts:
  assumes "list_all (\<lambda>r. ts r \<noteq> []) db"
  shows "or_none (sql_max (map ts db)) = (if db = [] then None else Some (Max (ts ` set db)))"
proof (cases "db = []")
  case True
  then show ?thesis by (simp add: sql_max_def or_none_def truthy_def)
next
  case False
  then have "Max (ts ` set db) \<in> ts ` set db" by (intro Max_in) simp_all
  with assms have "Max (ts ` set db) \<noteq> []" by (auto simp: list_all_iff)
  with False show ?thesis by (simp add: sql_max_Max or_none_def truthy_def)
qed

lemma sql_min_set: "set xs = set ys \<Longrightarrow> sql_min xs = sql_min ys"
proof (cases "xs = []")
  case True
  assume "set xs = set ys"
  with True have "ys = []" by simp
  with True show ?thesis by simp
next
  case False
  assume s: "set xs = set ys"
  with False have "ys \<noteq> []" by auto
  with False s show ?thesis by (simp add: sql_min_Min)
qed

lemma sql_max_set: "set xs = set ys \<Longrightarrow> sql_max xs = sql_max ys"
proof (cases "xs = []")
  case True
  assume "set xs = set ys"
  with True have "ys = []" by simp
  with True show ?thesis by simp
next
  case False
  assume s: "set xs = set ys"
  with False have "ys \<noteq> []" by auto
  with False s show ?thesis by (simp add: sql_max_Max)
qed

lemma count_from_mset: "mset db' = mset db \<Longrightarrow> count_from db' s = count_from db s"
  unfolding count_from_def by (metis mset_filter size_mset)

lemma get_stats_mset:
  assumes "mset db' = mset db"
  shows "get_stats db' = get_stats db"
proof -
  from assms have s: "set db' = set db" by (rule mset_eq_setD)
  from assms have l: "length db' = length db" by (rule mset_eq_length)
  have senders: "set (map from_msisdn db') = set (map from_msisdn db)" using s by simp
  have r: "sort (remdups (map from_msisdn db')) = sort (remdups (map from_msisdn db))"
    using senders by (metis sorted_list_of_set_sort_remdups)
  have n: "length (remdups (map from_msisdn db')) = length (remdups (map from_msisdn db))"
    using senders by (metis length_remdups_card_conv)
  have g: "group_by_sender db' = group_by_sender db"
    using r count_from_mset[OF assms] by (simp add: group_by_sender_def)
  have t: "set (map ts db') = set (map ts db)" using s by simp
  show ?thesis
    by (simp add: get_stats_def l n g top_senders_def sql_min_set[OF t] sql_max_set[OF t])
qed

text \<open>
  C4. For a table whose rows have a non-empty \<open>ts\<close> (every validated \<open>ts\<close> ends in \<open>Z\<close>),
  \<open>/stats\<close> returns: the number of rows; the number of distinct \<open>from_msisdn\<close> values; a
  list of at most 10 senders, exactly \<open>min 10 senders_count\<close> of them, each sender once
  and with its own message count, in descending order of count, no sender left out having
  more messages than a listed one; the minimum and the maximum \<open>ts\<close>, each \<open>None\<close> when
  the table is empty. The whole answer, the order among senders of equal count included,
  is determined by the stored rows alone: a table holding the same rows in another order
  gives the identical answer. With 15 messages from 15 senders this gives
  \<open>senders_count = 15\<close> and 10 entries (the witness below).
\<close>

theorem stats_aggregate:
  assumes "list_all (\<lambda>r. ts r \<noteq> []) db" and "mset db' = mset db"
  shows "total_messages (stats db) = length db
         \<and> senders_count (stats db) = card (from_msisdn ` set db)
         \<and> length (messages_per_sender (stats db)) = min 10 (senders_count (stats db))
         \<and> distinct (map fst (messages_per_sender (stats db)))
         \<and> (\<forall>g \<in> set (messages_per_sender (stats db)).
               fst g \<in> from_msisdn ` set db
               \<and> snd g = length (filter (\<lambda>r. from_msisdn r = fst g) db))
         \<and> sorted_wrt (\<lambda>a b. snd b \<le> snd a) (messages_per_sender (stats db))
         \<and> (\<forall>s \<in> from_msisdn ` set db. s \<notin> fst ` set (messages_per_sender (stats db)) \<longrightarrow>
               (\<forall>g \<in> set (messages_per_sender (stats db)).
                  length (filter (\<lambda>r. from_msisdn r = s) db) \<le> snd g))
         \<and> first_message_ts (stats db) = (if db = [] then None else Some (Min (ts ` set db)))
         \<and> last_message_ts (stats db) = (if db = [] then None else Some (Max (ts ` set db)))
         \<and> stats db' = stats db"
proof -
  have f: "total_messages (stats db) = length db"
    "senders_count (stats db) = length (remdups (map from_msisdn db))"
    "messages_per_sender (stats db) = top_senders db"
    "first_message_ts (stats db) = or_none (sql_min (map ts db))"
    "last_message_ts (stats db) = or_none (sql_max (map ts db))"
    by (simp_all add: stats_get_stats get_stats_def)
  have 1: "total_messages (stats db) = length db" by (rule f(1))
  have 2: "senders_count (stats db) = card (from_msisdn ` set db)"
    unfolding f(2) by (rule senders_count_card)
  have 3: "length (messages_per_sender (stats db)) = min 10 (senders_count (stats db))"
    unfolding f(2) f(3) by (rule top_senders_length)
  have 4: "distinct (map fst (messages_per_sender (stats db)))"
    unfolding f(3) by (rule top_senders_distinct)
  have 5: "\<forall>g \<in> set (messages_per_sender (stats db)).
               fst g \<in> from_msisdn ` set db
               \<and> snd g = length (filter (\<lambda>r. from_msisdn r = fst g) db)"
    unfolding f(3) using top_senders_entries by blast
  have 6: "sorted_wrt (\<lambda>a b. snd b \<le> snd a) (messages_per_sender (stats db))"
    unfolding f(3) by (rule top_senders_sorted)
  have 7: "\<forall>s \<in> from_msisdn ` set db. s \<notin> fst ` set (messages_per_sender (stats db)) \<longrightarrow>
               (\<forall>g \<in> set (messages_per_sender (stats db)).
                  length (filter (\<lambda>r. from_msisdn r = s) db) \<le> snd g)"
    unfolding f(3) using top_senders_are_top by blast
  have 8: "first_message_ts (stats db) = (if db = [] then None else Some (Min (ts ` set db)))"
    unfolding f(4) by (rule first_ts[OF assms(1)])
  have 9: "last_message_ts (stats db) = (if db = [] then None else Some (Max (ts ` set db)))"
    unfolding f(5) by (rule last_ts[OF assms(1)])
  have 10: "stats db' = stats db"
    by (simp add: stats_get_stats get_stats_mset[OF assms(2)])
  from 1 2 3 4 5 6 7 8 9 10 show ?thesis by (intro conjI)
qed

theorem stats_aggregate_witness:
  "list_all (\<lambda>r. ts r \<noteq> []) fifteen_senders_db
   \<and> mset (rev fifteen_senders_db) = mset fifteen_senders_db
   \<and> total_messages (stats fifteen_senders_db) = 15
   \<and> senders_count (stats fifteen_senders_db) = 15
   \<and> length (messages_per_sender (stats fifteen_senders_db)) = 10
   \<and> first_message_ts (stats fifteen_senders_db) = Some ''2025-01-10T10:00:00Z''
   \<and> last_message_ts (stats fifteen_senders_db) = Some ''2025-01-24T10:00:00Z''
   \<and> stats (rev fifteen_senders_db) = stats fifteen_senders_db"
proof -
  have h1: "list_all (\<lambda>r. ts r \<noteq> []) fifteen_senders_db" by code_simp
  have h2: "mset (rev fifteen_senders_db) = mset fifteen_senders_db" by simp
  note t = stats_aggregate[OF h1 h2]
  have n: "senders_count (stats fifteen_senders_db) = 15" by code_simp
  have m: "total_messages (stats fifteen_senders_db) = 15" by code_simp
  have a: "first_message_ts (stats fifteen_senders_db) = Some ''2025-01-10T10:00:00Z''"
    by code_simp
  have b: "last_message_ts (stats fifteen_senders_db) = Some ''2025-01-24T10:00:00Z''"
    by code_simp
  from t have "length (messages_per_sender (stats fifteen_senders_db))
                 = min 10 (senders_count (stats fifteen_senders_db))" by blast
  with n have l: "length (messages_per_sender (stats fifteen_senders_db)) = 10" by simp
  from t have d: "stats (rev fifteen_senders_db) = stats fifteen_senders_db" by blast
  from h1 h2 m n l a b d show ?thesis by (intro conjI)
qed

lemma empty_stats:
  "stats [] = \<lparr>total_messages = 0, senders_count = 0, messages_per_sender = [],
               first_message_ts = None, last_message_ts = None\<rparr>"
  by code_simp

section \<open>Order among senders of equal count\<close>

text \<open>
  In this model of SQLite's evaluation the list is in descending order of count, senders
  of equal count in descending order of \<open>from_msisdn\<close>.
\<close>

lemma sorted_wrt_stable_key:
  fixes k :: "'a \<Rightarrow> int"
  assumes "sorted (map k xs)"
    and "\<And>v. sorted_wrt Q (filter (\<lambda>y. k y = v) xs)"
  shows "sorted_wrt (\<lambda>a b. k a < k b \<or> (k a = k b \<and> Q a b)) xs"
  using assms
proof (induction xs)
  case Nil
  then show ?case by simp
next
  case (Cons a xs)
  have tail: "sorted_wrt Q (filter (\<lambda>y. k y = v) xs)" for v
    using Cons.prems(2)[of v] by (cases "k a = v") simp_all
  have "sorted (map k xs)" using Cons.prems(1) by simp
  from Cons.IH[OF this tail]
  have ih: "sorted_wrt (\<lambda>a b. k a < k b \<or> (k a = k b \<and> Q a b)) xs" .
  have "k a < k b \<or> (k a = k b \<and> Q a b)" if b: "b \<in> set xs" for b
  proof (cases "k a = k b")
    case True
    have "sorted_wrt Q (a # filter (\<lambda>y. k y = k a) xs)"
      using Cons.prems(2)[of "k a"] by simp
    with b True show ?thesis by auto
  next
    case False
    moreover have "k a \<le> k b" using Cons.prems(1) b by auto
    ultimately show ?thesis by simp
  qed
  with ih show ?case by simp
qed

lemma group_by_sender_desc:
  "sorted_wrt (\<lambda>a b. fst b < fst a) (group_by_sender db)"
proof -
  have "sorted_wrt (<) (sort (remdups (map from_msisdn db)))"
    using strict_sorted_iff by (metis distinct_remdups distinct_sort sorted_sort)
  then have "sorted_wrt (\<lambda>a b. b < a) (rev (sort (remdups (map from_msisdn db))))"
    by (simp add: sorted_wrt_rev)
  then show ?thesis by (simp add: group_by_sender_def sorted_wrt_map)
qed

lemma top_senders_tie_order:
  "sorted_wrt (\<lambda>a b. snd b < snd a \<or> (snd a = snd b \<and> fst b < fst a)) (top_senders db)"
proof -
  let ?L = "sort_key by_count_desc (group_by_sender db)"
  have "sorted_wrt (\<lambda>a b. fst b < fst a) (filter (\<lambda>y. by_count_desc y = v) ?L)" for v
    using group_by_sender_desc[of db] by (simp add: sort_key_stable sorted_wrt_filter)
  then have "sorted_wrt (\<lambda>a b. by_count_desc a < by_count_desc b
                 \<or> (by_count_desc a = by_count_desc b \<and> fst b < fst a)) ?L"
    by (intro sorted_wrt_stable_key) simp_all
  then have "sorted_wrt (\<lambda>a b. snd b < snd a \<or> (snd a = snd b \<and> fst b < fst a)) ?L"
    by (simp add: by_count_desc_def)
  then show ?thesis by (simp add: top_senders_alt)
qed

section \<open>Invariants of the table\<close>

text \<open>
  Whatever a request to \<open>/webhook\<close> does, the table keeps unique \<open>message_id\<close> values and
  rows with a non-empty \<open>ts\<close>: a stored \<open>ts\<close> has passed \<open>validate_ts\<close> and ends in \<open>Z\<close>.
\<close>

lemma endswith_nonempty: "endswith v ''Z'' \<Longrightarrow> v \<noteq> []"
  by (auto simp: endswith_def)

lemma model_validate_ts:
  assumes "model_validate fromisoformat j = Inr payload"
  shows "ts payload \<noteq> []"
proof -
  from assms have ok: "field_ok (validate_ts fromisoformat) (j_ts j)"
    and p: "ts payload = the (j_ts j)"
    by (auto simp: model_validate_def split: if_splits)
  from ok obtain v where v: "j_ts j = Some v" and "validate_ts fromisoformat v = Inr v"
    by (auto simp: field_ok_def validate_ts_def split: option.splits sum.splits if_splits)
  then have "endswith v ''Z''" by (auto simp: validate_ts_def split: if_splits)
  with v p show ?thesis by (simp add: endswith_nonempty)
qed

lemma webhook_db:
  "st_db (snd (webhook hexdigest config env st payload body x_signature)) = st_db st
   \<or> st_db (snd (webhook hexdigest config env st payload body x_signature))
       = snd (insert_message env (st_db st) (message_id payload) (from_msisdn payload)
                (to_msisdn payload) (ts payload) (msg_text payload))"
  by (auto simp: webhook_def split: option.splits sum.splits prod.splits)

lemma post_webhook_invariants:
  assumes "pk_unique (st_db st)" and "list_all (\<lambda>r. ts r \<noteq> []) (st_db st)"
  shows "pk_unique (st_db (snd (post_webhook fromisoformat hexdigest config env st req)))
         \<and> list_all (\<lambda>r. ts r \<noteq> [])
             (st_db (snd (post_webhook fromisoformat hexdigest config env st req)))"
proof (cases "model_validate fromisoformat (req_json req)")
  case (Inl e)
  with assms show ?thesis by (simp add: post_webhook_def)
next
  case (Inr payload)
  let ?ins = "snd (insert_message env (st_db st) (message_id payload) (from_msisdn payload)
                (to_msisdn payload) (ts payload) (msg_text payload))"
  have t: "ts payload \<noteq> []" by (rule model_validate_ts[OF Inr])
  have "pk_unique ?ins" by (rule insert_message_pk_unique[OF assms(1)])
  moreover have "list_all (\<lambda>r. ts r \<noteq> []) ?ins"
    using assms(2) t by (simp add: insert_message_outcomes)
  ultimately show ?thesis
    using assms webhook_db[of hexdigest config env st payload "req_body req" "req_x_signature req"]
      Inr by (auto simp: post_webhook_def)
qed

end
